theory Spec2Isabelle
  imports Main "HOL-Library.Multiset"
begin

section \<open>Data model of the S3 client (src/client.go)\<close>

text \<open>
  Go's \<open>error\<close> interface: \<open>None\<close> of \<open>error option\<close> is the nil error. The three ways
  the package builds an error are kept apart: \<open>errors.New(msg)\<close>, \<open>fmt.Errorf(msg)\<close> with no
  operand, and \<open>fmt.Errorf("...: %w", err)\<close>, which wraps its operand. Errors that come back
  from the SDK are arbitrary values of the same type.
\<close>

datatype error =
    errors_New string
  | fmt_Errorf string
  | fmt_Errorf_w string "error option"

text \<open>\<open>time.Duration\<close> counts nanoseconds; \<open>time.Minute\<close> is \<open>60 * 10^9\<close> of them.\<close>

type_synonym Duration = int

definition Minute :: Duration where
  "Minute = 60 * 1000000000"

text \<open>
  \<open>Config\<close> is declared outside \<open>client.go\<close>; the fields are the five that \<open>New\<close> reads.
\<close>

record Config =
  Endpoint :: string
  AccessKeyID :: string
  SecretAccessKey :: string
  BucketName :: string
  Region :: string

text \<open>
  Of \<open>types.Object\<close> the client reads the key only. The SDK sets the key of every object it
  lists, so \<open>*obj.Key\<close> is that string.
\<close>

record Object =
  Key :: string

text \<open>
  The requests the client sends to the SDK. A trace is the sequence of requests issued so far,
  oldest first.
\<close>

datatype request =
    PutObject string string string string
  | DeleteObject string string
  | HeadObject string string
  | ListObjects string string
  | PresignGetObject string string Duration

type_synonym trace = "request list"

text \<open>
  The SDK handle \<open>*s3.Client\<close> is the environment of the program. Each of its answers is a
  function of the whole trace up to and including the request being answered, so that an answer
  may depend on everything that was sent before it.
\<close>

record s3_Client =
  PutObject_err :: "trace \<Rightarrow> error option"
  DeleteObject_err :: "trace \<Rightarrow> error option"
  HeadObject_err :: "trace \<Rightarrow> error option"
  ListObjects_out :: "trace \<Rightarrow> error + Object list"
  PresignGetObject_out :: "trace \<Rightarrow> error + string"

record Client =
  client :: s3_Client
  bucket :: string
  endpoint :: string

text \<open>The two library calls of \<open>New\<close>: loading the AWS configuration and building the handle.\<close>

record Options =
  BaseEndpoint :: string
  UsePathStyle :: bool

record 'cfg aws =
  LoadDefaultConfig :: "string \<Rightarrow> string \<times> string \<times> string \<Rightarrow> error + 'cfg"
  NewFromConfig :: "'cfg \<Rightarrow> Options \<Rightarrow> s3_Client"

section \<open>Operations\<close>

text \<open>
  A Go function returning \<open>(T, error)\<close> returns a pair here, the error as \<open>error option\<close>;
  a nil pointer or nil slice is \<open>None\<close>. Every operation that talks to the SDK takes the
  trace and returns it extended. The context argument is only handed on to the SDK, whose
  answers are arbitrary here, and \<open>log.Printf\<close> writes to the log only: both are left out.
\<close>

definition New :: "'cfg aws \<Rightarrow> Config \<Rightarrow> Client option \<times> error option" where
  "New lib cfg =
     (if AccessKeyID cfg = '''' \<or> SecretAccessKey cfg = ''''
      then (None, Some (errors_New ''S3 credentials not configured''))
      else case LoadDefaultConfig lib (Region cfg) (AccessKeyID cfg, SecretAccessKey cfg, '''') of
             Inl e \<Rightarrow> (None, Some (fmt_Errorf_w ''failed to load AWS config: %w'' (Some e)))
           | Inr awsCfg \<Rightarrow>
               (Some \<lparr>client = NewFromConfig lib awsCfg
                                 \<lparr>BaseEndpoint = Endpoint cfg, UsePathStyle = True\<rparr>,
                      bucket = BucketName cfg,
                      endpoint = Endpoint cfg\<rparr>, None))"

definition GetPresignedURL ::
  "Client \<Rightarrow> string \<Rightarrow> Duration \<Rightarrow> trace \<Rightarrow> (string \<times> error option) \<times> trace" where
  "GetPresignedURL c k expiration tr =
     (let tr' = tr @ [PresignGetObject (bucket c) k expiration] in
      case PresignGetObject_out (client c) tr' of
        Inl e \<Rightarrow> (('''', Some (fmt_Errorf_w ''failed to generate presigned URL: %w'' (Some e))), tr')
      | Inr u \<Rightarrow> ((u, None), tr'))"

definition UploadFile ::
  "Client \<Rightarrow> string \<Rightarrow> string \<Rightarrow> string \<Rightarrow> string \<Rightarrow> trace \<Rightarrow> (string \<times> error option) \<times> trace" where
  "UploadFile c objectID k body contentType tr =
     (let objectKey = objectID @ ''/'' @ k;
          tr1 = tr @ [PutObject (bucket c) objectKey body contentType] in
      case PutObject_err (client c) tr1 of
        Some e \<Rightarrow> (('''', Some (fmt_Errorf_w ''failed to upload file to S3: %w'' (Some e))), tr1)
      | None \<Rightarrow>
          (case GetPresignedURL c objectKey (15 * Minute) tr1 of
             ((presignedURL, Some e), tr2) \<Rightarrow>
               (('''', Some (fmt_Errorf_w ''failed to generate presigned URL: %w'' (Some e))), tr2)
           | ((presignedURL, None), tr2) \<Rightarrow> ((presignedURL, None), tr2)))"

definition DeleteFile :: "Client \<Rightarrow> string \<Rightarrow> trace \<Rightarrow> error option \<times> trace" where
  "DeleteFile c k tr =
     (let tr' = tr @ [DeleteObject (bucket c) k] in
      case DeleteObject_err (client c) tr' of
        Some e \<Rightarrow> (Some (fmt_Errorf_w ''failed to delete file from S3: %w'' (Some e)), tr')
      | None \<Rightarrow> (None, tr'))"

definition FileExists :: "Client \<Rightarrow> string \<Rightarrow> trace \<Rightarrow> (bool \<times> error option) \<times> trace" where
  "FileExists c k tr =
     (let tr' = tr @ [HeadObject (bucket c) k] in
      case HeadObject_err (client c) tr' of
        Some e \<Rightarrow> ((False, None), tr')
      | None \<Rightarrow> ((True, None), tr'))"

text \<open>
  \<open>normalizeURL\<close> scans the bytes of the string from index \<open>i\<close>; \<open>url[:i]\<close> is \<open>take i\<close>.
\<close>

function normalizeURL_from :: "string \<Rightarrow> nat \<Rightarrow> string" where
  "normalizeURL_from s i =
     (if i < length s
      then (if s ! i = CHR ''?'' \<or> s ! i = CHR ''#'' then take i s
            else normalizeURL_from s (i + 1))
      else s)"
  by pat_completeness auto
termination
  by (relation "measure (\<lambda>(s, i). length s - i)") auto

declare normalizeURL_from.simps [simp del]

definition normalizeURL :: "string \<Rightarrow> string" where
  "normalizeURL s = normalizeURL_from s 0"

text \<open>
  The search loop of \<open>FindKeyByPresignedURL\<close> over \<open>objects.Contents\<close>; \<open>target\<close> is the
  normalised target. An object whose presigning fails is passed over (\<open>continue\<close>); the empty
  list is the end of the loop, where the function returns its not-found error.
\<close>

fun find_loop :: "Client \<Rightarrow> string \<Rightarrow> Object list \<Rightarrow> trace \<Rightarrow> (string \<times> error option) \<times> trace" where
  "find_loop c target [] tr =
     (('''', Some (fmt_Errorf ''object not found for the given presigned URL'')), tr)"
| "find_loop c target (obj # objs) tr =
     (case GetPresignedURL c (Key obj) (15 * Minute) tr of
        ((objPresignedURL, Some e), tr') \<Rightarrow> find_loop c target objs tr'
      | ((objPresignedURL, None), tr') \<Rightarrow>
          if normalizeURL objPresignedURL = target then ((Key obj, None), tr')
          else find_loop c target objs tr')"

definition FindKeyByPresignedURL ::
  "Client \<Rightarrow> string \<Rightarrow> string \<Rightarrow> trace \<Rightarrow> (string \<times> error option) \<times> trace" where
  "FindKeyByPresignedURL c presignedURL prefix tr =
     (let tr1 = tr @ [ListObjects (bucket c) prefix] in
      case ListObjects_out (client c) tr1 of
        Inl e \<Rightarrow> (('''', Some (fmt_Errorf_w ''failed to list objects: %w'' (Some e))), tr1)
      | Inr contents \<Rightarrow> find_loop c (normalizeURL presignedURL) contents tr1)"

record presignedURLResult =
  index :: nat
  url :: string
  err :: "error option"

text \<open>
  The body of one goroutine of \<open>GetObjects\<close>, started with its listing index and its object:
  it presigns and sends its result on the channel.
\<close>

definition worker :: "Client \<Rightarrow> nat \<times> Object \<Rightarrow> trace \<Rightarrow> presignedURLResult \<times> trace" where
  "worker c g tr =
     (case GetPresignedURL c (Key (snd g)) (15 * Minute) tr of
        ((presignedURL, e), tr') \<Rightarrow> (\<lparr>index = fst g, url = presignedURL, err = e\<rparr>, tr'))"

text \<open>The goroutines in the order in which their presign calls reach the SDK.\<close>

fun run_workers :: "Client \<Rightarrow> (nat \<times> Object) list \<Rightarrow> trace \<Rightarrow> presignedURLResult list \<times> trace" where
  "run_workers c [] tr = ([], tr)"
| "run_workers c (g # gs) tr =
     (case worker c g tr of
        (r, tr1) \<Rightarrow> (case run_workers c gs tr1 of (rs, tr2) \<Rightarrow> (r # rs, tr2)))"

text \<open>
  The collector loop \<open>for result := range resultsChan\<close> over the results in the order the
  channel delivers them. Its state is \<open>(presignedURLs, errorCount, firstError)\<close>. Writing
  \<open>presignedURLs[result.index]\<close> outside the slice panics in Go: that is \<open>None\<close>.
\<close>

fun collect ::
  "presignedURLResult list \<Rightarrow> string list \<times> nat \<times> error option \<Rightarrow>
   (string list \<times> nat \<times> error option) option" where
  "collect [] st = Some st"
| "collect (r # rs) (presignedURLs, errorCount, firstError) =
     (case err r of
        Some e \<Rightarrow>
          collect rs (presignedURLs, errorCount + 1,
                      if firstError = None then Some e else firstError)
      | None \<Rightarrow>
          if index r < length presignedURLs
          then collect rs (presignedURLs[index r := url r], errorCount, firstError)
          else None)"

datatype 'a outcome = Return 'a | Panic

text \<open>
  \<open>GetObjects\<close>. The goroutines run concurrently, so two orders are not fixed by the program
  and are parameters here, each a list of positions: \<open>sched\<close>, the order in which the
  goroutines (numbered as they are started) make their presign call, and \<open>arrival\<close>, the order
  in which the results (numbered as produced) are received from the channel. The channel has
  room for every result, so any pair of orders can occur.
\<close>

definition GetObjects ::
  "Client \<Rightarrow> string \<Rightarrow> nat list \<Rightarrow> nat list \<Rightarrow> trace \<Rightarrow>
   (string list option \<times> error option) outcome \<times> trace" where
  "GetObjects c prefix sched arrival tr =
     (let tr1 = tr @ [ListObjects (bucket c) prefix] in
      case ListObjects_out (client c) tr1 of
        Inl e \<Rightarrow> (Return (None, Some (fmt_Errorf_w ''failed to list objects: %w'' (Some e))), tr1)
      | Inr contents \<Rightarrow>
          if length contents = 0 then (Return (Some [], None), tr1)
          else
            let goroutines = zip [0 ..< length contents] contents in
            (case run_workers c (map (\<lambda>p. goroutines ! p) sched) tr1 of
               (sent, tr2) \<Rightarrow>
                 let resultsChan = map (\<lambda>p. sent ! p) arrival in
                 (case collect resultsChan (replicate (length contents) '''', 0, None) of
                    None \<Rightarrow> (Panic, tr2)
                  | Some (presignedURLs, errorCount, firstError) \<Rightarrow>
                      if errorCount = length contents
                      then (Return (None, Some (fmt_Errorf_w ''failed to get presigned URLs: %w''
                                                  firstError)), tr2)
                      else if errorCount > 0
                      then (Return (Some (filter (\<lambda>u. u \<noteq> '''') presignedURLs), None), tr2)
                      else (Return (Some presignedURLs, None), tr2))))"

subsection \<open>Notions used to state the properties\<close>

text \<open>
  The presign requests that the search loop and the goroutines send for a list of objects, and
  the answer of the SDK to the request for the \<open>i\<close>-th listed object when the loop has reached
  it, that is, when the requests for the objects before it have been sent after trace \<open>tr\<close>.
  \<open>url_matches\<close> says that this answer is a URL whose normal form is that of the target.
\<close>

definition presign_requests :: "Client \<Rightarrow> Object list \<Rightarrow> request list" where
  "presign_requests c objs = map (\<lambda>obj. PresignGetObject (bucket c) (Key obj) (15 * Minute)) objs"

definition fresh_url :: "Client \<Rightarrow> trace \<Rightarrow> Object list \<Rightarrow> nat \<Rightarrow> error + string" where
  "fresh_url c tr objs i =
     PresignGetObject_out (client c) (tr @ presign_requests c (take (Suc i) objs))"




definition in_listing_order :: "presignedURLResult list \<Rightarrow> presignedURLResult list" where
  "in_listing_order rs = sort_key index rs"




subsection \<open>A concrete environment\<close>

text \<open>
  A small SDK to run the operations on: prefix \<open>p/\<close> lists three objects of which the second
  cannot be presigned, \<open>q/\<close> two that cannot, \<open>r/\<close> two that can, \<open>s/\<close> one that cannot and one
  whose presigning succeeds with the empty string, \<open>e/\<close> nothing; listing any other prefix
  fails. A presigned URL is the path of the object followed by a query string that changes with
  the length of the trace.
\<close>

definition demo_listing :: "string \<Rightarrow> error + Object list" where
  "demo_listing prefix =
     (if prefix = ''p/'' then Inr [\<lparr>Key = ''p/a''\<rparr>, \<lparr>Key = ''p/bad''\<rparr>, \<lparr>Key = ''p/c''\<rparr>]
      else if prefix = ''q/'' then Inr [\<lparr>Key = ''q/bad1''\<rparr>, \<lparr>Key = ''q/bad2''\<rparr>]
      else if prefix = ''r/'' then Inr [\<lparr>Key = ''r/a''\<rparr>, \<lparr>Key = ''r/b''\<rparr>]
      else if prefix = ''s/'' then Inr [\<lparr>Key = ''s/blank''\<rparr>, \<lparr>Key = ''s/bad''\<rparr>]
      else if prefix = ''e/'' then Inr []
      else Inl (errors_New ''AccessDenied''))"

definition demo_presign :: "trace \<Rightarrow> error + string" where
  "demo_presign tr =
     (case last tr of
        PresignGetObject b k e \<Rightarrow>
          if k = ''p/bad'' \<or> k = ''q/bad1'' \<or> k = ''q/bad2'' \<or> k = ''s/bad''
          then Inl (errors_New (''cannot sign '' @ k))
          else if k = ''s/blank'' then Inr ''''
          else Inr (''https://h/'' @ b @ ''/'' @ k @ ''?X-Amz-Signature=''
                    @ replicate (length tr) CHR ''f'')
      | _ \<Rightarrow> Inl (errors_New ''not a presign request''))"

definition demo_s3 :: s3_Client where
  "demo_s3 =
     \<lparr>PutObject_err = (\<lambda>tr. None),
      DeleteObject_err = (\<lambda>tr. None),
      HeadObject_err = (\<lambda>tr. case last tr of
                                HeadObject b k \<Rightarrow>
                                  if k = ''p/a'' then None else Some (errors_New ''NotFound'')
                              | _ \<Rightarrow> Some (errors_New ''not a head request'')),
      ListObjects_out = (\<lambda>tr. case last tr of
                                 ListObjects b prefix \<Rightarrow> demo_listing prefix
                               | _ \<Rightarrow> Inl (errors_New ''not a list request'')),
      PresignGetObject_out = demo_presign\<rparr>"

definition demo_client :: Client where
  "demo_client = \<lparr>client = demo_s3, bucket = ''bkt'', endpoint = ''https://h''\<rparr>"

definition demo_aws :: "unit aws" where
  "demo_aws =
     \<lparr>LoadDefaultConfig = (\<lambda>region creds. Inr ()), NewFromConfig = (\<lambda>cfg opts. demo_s3)\<rparr>"

definition demo_config :: "string \<Rightarrow> string \<Rightarrow> Config" where
  "demo_config access secret =
     \<lparr>Endpoint = ''https://h'', AccessKeyID = access, SecretAccessKey = secret,
      BucketName = ''bkt'', Region = ''ru-central1''\<rparr>"

section \<open>normalizeURL\<close>

lemma normalizeURL_from_takeWhile:
  "i \<le> length s \<Longrightarrow>
   normalizeURL_from s i =
     take i s @ takeWhile (\<lambda>ch. ch \<noteq> CHR ''?'' \<and> ch \<noteq> CHR ''#'') (drop i s)"
proof (induction s i rule: normalizeURL_from.induct)
  case (1 s i)
  show ?case
  proof (cases "i < length s")
    case False
    with "1.prems" have "i = length s" by simp
    then show ?thesis by (simp add: normalizeURL_from.simps [of s "length s"])
  next
    case True
    then have d: "drop i s = s ! i # drop (Suc i) s"
      by (simp add: Cons_nth_drop_Suc)
    show ?thesis
    proof (cases "s ! i = CHR ''?'' \<or> s ! i = CHR ''#''")
      case stop: True
      then show ?thesis
        using True d by (auto simp add: normalizeURL_from.simps [of s i])
    next
      case go: False
      have "normalizeURL_from s i = normalizeURL_from s (i + 1)"
        using True go by (simp add: normalizeURL_from.simps [of s i])
      also have "\<dots> = take (i + 1) s
                    @ takeWhile (\<lambda>ch. ch \<noteq> CHR ''?'' \<and> ch \<noteq> CHR ''#'') (drop (i + 1) s)"
        using "1.IH" True go by simp
      also have "take (i + 1) s = take i s @ [s ! i]"
        using True by (simp add: take_Suc_conv_app_nth)
      finally show ?thesis
        using go d by simp
    qed
  qed
qed

lemma normalizeURL_takeWhile:
  "normalizeURL s = takeWhile (\<lambda>ch. ch \<noteq> CHR ''?'' \<and> ch \<noteq> CHR ''#'') s"
  by (simp add: normalizeURL_def normalizeURL_from_takeWhile)

text \<open>
  C4. \<open>normalizeURL u\<close> is \<open>u\<close> when \<open>u\<close> holds neither \<open>?\<close> nor \<open>#\<close>; otherwise it is the part
  of \<open>u\<close> strictly before the first position holding one of the two. In particular
  \<open>normalizeURL "https://h/k?X=1#frag" = "https://h/k"\<close>.
\<close>

theorem normalizeURL_truncates:
  "(CHR ''?'' \<notin> set u \<and> CHR ''#'' \<notin> set u \<longrightarrow> normalizeURL u = u) \<and>
   (CHR ''?'' \<in> set u \<or> CHR ''#'' \<in> set u \<longrightarrow>
      (\<exists>i < length u. (u ! i = CHR ''?'' \<or> u ! i = CHR ''#'') \<and>
                      (\<forall>j < i. u ! j \<noteq> CHR ''?'' \<and> u ! j \<noteq> CHR ''#'') \<and>
                      normalizeURL u = take i u)) \<and>
   normalizeURL ''https://h/k?X=1#frag'' = ''https://h/k''"
proof (intro conjI impI)
  assume "CHR ''?'' \<notin> set u \<and> CHR ''#'' \<notin> set u"
  then have "\<forall>ch \<in> set u. ch \<noteq> CHR ''?'' \<and> ch \<noteq> CHR ''#''" by auto
  then show "normalizeURL u = u"
    by (simp add: normalizeURL_takeWhile)
next
  let ?P = "\<lambda>ch. ch \<noteq> CHR ''?'' \<and> ch \<noteq> CHR ''#''"
  let ?i = "length (takeWhile ?P u)"
  assume "CHR ''?'' \<in> set u \<or> CHR ''#'' \<in> set u"
  then have ex: "\<exists>ch \<in> set u. \<not> ?P ch" by auto
  then have "takeWhile ?P u \<noteq> u"
    by (simp add: takeWhile_eq_all_conv)
  moreover have tw: "takeWhile ?P u = take ?i u"
    by (rule takeWhile_eq_take)
  ultimately have lt: "?i < length u"
    by (metis leI take_all)
  have stop: "\<not> ?P (u ! ?i)"
    using lt by (rule nth_length_takeWhile)
  have before: "\<forall>j < ?i. ?P (u ! j)"
  proof (intro allI impI)
    fix j assume j: "j < ?i"
    then have eq: "takeWhile ?P u ! j = u ! j" by (rule takeWhile_nth)
    have "takeWhile ?P u ! j \<in> set (takeWhile ?P u)"
      using j by simp
    then have "?P (takeWhile ?P u ! j)"
      by (rule set_takeWhileD [THEN conjunct2])
    then show "?P (u ! j)"
      by (simp add: eq)
  qed
  have "normalizeURL u = take ?i u"
    unfolding normalizeURL_takeWhile by (rule takeWhile_eq_take)
  with lt stop before
  show "\<exists>i < length u. (u ! i = CHR ''?'' \<or> u ! i = CHR ''#'') \<and>
                       (\<forall>j < i. u ! j \<noteq> CHR ''?'' \<and> u ! j \<noteq> CHR ''#'') \<and>
                       normalizeURL u = take i u"
    by blast
next
  show "normalizeURL ''https://h/k?X=1#frag'' = ''https://h/k''"
    by (simp add: normalizeURL_takeWhile)
qed

theorem normalizeURL_truncates_witness:
  "CHR ''?'' \<notin> set ''https://h/k'' \<and> CHR ''#'' \<notin> set ''https://h/k'' \<and>
   normalizeURL ''https://h/k'' = ''https://h/k'' \<and>
   CHR ''#'' \<in> set ''a#b?c'' \<and>
   (\<exists>i < length ''a#b?c''. (''a#b?c'' ! i = CHR ''?'' \<or> ''a#b?c'' ! i = CHR ''#'') \<and>
      (\<forall>j < i. ''a#b?c'' ! j \<noteq> CHR ''?'' \<and> ''a#b?c'' ! j \<noteq> CHR ''#'') \<and>
      normalizeURL ''a#b?c'' = take i ''a#b?c'')"
  using normalizeURL_truncates [of "''https://h/k''"] normalizeURL_truncates [of "''a#b?c''"]
  by simp

section \<open>Construction\<close>

text \<open>
  C7. \<open>New\<close> fails with the credentials-not-configured error whenever the access key or the
  secret key is empty, whatever the bucket, region and endpoint are and whatever the library
  would answer; with both credentials non-empty it never returns that error.
\<close>

theorem New_requires_credentials:
  "(AccessKeyID cfg = '''' \<or> SecretAccessKey cfg = '''' \<longrightarrow>
      New lib cfg = (None, Some (errors_New ''S3 credentials not configured''))) \<and>
   (AccessKeyID cfg \<noteq> '''' \<and> SecretAccessKey cfg \<noteq> '''' \<longrightarrow>
      snd (New lib cfg) \<noteq> Some (errors_New ''S3 credentials not configured''))"
  by (auto simp add: New_def split: sum.splits)

theorem New_requires_credentials_witness:
  "(AccessKeyID (demo_config '''' ''secret'') = '''' \<or>
    SecretAccessKey (demo_config '''' ''secret'') = '''') \<and>
   New demo_aws (demo_config '''' ''secret'') =
     (None, Some (errors_New ''S3 credentials not configured'')) \<and>
   (AccessKeyID (demo_config ''id'' ''secret'') \<noteq> '''' \<and>
    SecretAccessKey (demo_config ''id'' ''secret'') \<noteq> '''') \<and>
   snd (New demo_aws (demo_config ''id'' ''secret'')) \<noteq>
     Some (errors_New ''S3 credentials not configured'')"
  using New_requires_credentials [of "demo_config '''' ''secret''" demo_aws]
        New_requires_credentials [of "demo_config ''id'' ''secret''" demo_aws]
  by (simp add: demo_config_def)

section \<open>Existence check\<close>

text \<open>
  C6. \<open>FileExists\<close> never returns an error: it sends one head-object request and returns
  \<open>(true, nil)\<close> when that call succeeds and \<open>(false, nil)\<close> for every error of that call,
  whatever the error is.
\<close>

theorem FileExists_never_fails:
  "FileExists c k tr =
     ((HeadObject_err (client c) (tr @ [HeadObject (bucket c) k]) = None, None),
      tr @ [HeadObject (bucket c) k])"
  by (simp add: FileExists_def Let_def split: option.splits)

section \<open>The concrete environment at work\<close>

text \<open>Runs of the operations on the concrete environment, computed by rewriting.\<close>

lemmas demo_defs = demo_client_def demo_s3_def demo_listing_def demo_presign_def




lemma demo_upload:
  "UploadFile demo_client ''obj1'' ''f.jpg'' ''bytes'' ''image/jpeg'' [] =
     ((''https://h/bkt/obj1/f.jpg?X-Amz-Signature=ff'', None),
      [PutObject ''bkt'' ''obj1/f.jpg'' ''bytes'' ''image/jpeg'',
       PresignGetObject ''bkt'' ''obj1/f.jpg'' (15 * Minute)])"
  by (simp add: UploadFile_def Let_def demo_defs GetPresignedURL_def)

lemma demo_find_trace:
  "snd (FindKeyByPresignedURL demo_client ''https://h/bkt/p/c?old#x'' ''p/'' []) =
     [ListObjects ''bkt'' ''p/'', PresignGetObject ''bkt'' ''p/a'' (15 * Minute),
      PresignGetObject ''bkt'' ''p/bad'' (15 * Minute), PresignGetObject ''bkt'' ''p/c'' (15 * Minute)]"
  by (simp add: FindKeyByPresignedURL_def Let_def demo_defs GetPresignedURL_def normalizeURL_takeWhile)


lemma demo_trace_p1:
  "snd (GetObjects demo_client ''p/'' [2, 1, 0] [1, 2, 0] []) =
     [ListObjects ''bkt'' ''p/'', PresignGetObject ''bkt'' ''p/c'' (15 * Minute),
      PresignGetObject ''bkt'' ''p/bad'' (15 * Minute), PresignGetObject ''bkt'' ''p/a'' (15 * Minute)]"
  by (simp add: GetObjects_def Let_def demo_defs worker_def GetPresignedURL_def upt_rec)





section \<open>Finding a key by its presigned URL\<close>

lemma GetPresignedURL_trace:
  "snd (GetPresignedURL c k e tr) = tr @ [PresignGetObject (bucket c) k e]"
  by (simp add: GetPresignedURL_def Let_def split: sum.splits)

lemma fresh_url_Cons_0:
  "fresh_url c tr (obj # objs) 0 =
     PresignGetObject_out (client c) (tr @ [PresignGetObject (bucket c) (Key obj) (15 * Minute)])"
  by (simp add: fresh_url_def presign_requests_def)


lemma find_loop_Cons:
  "find_loop c target (obj # objs) tr =
     (case fresh_url c tr (obj # objs) 0 of
        Inl e \<Rightarrow> find_loop c target objs (tr @ [PresignGetObject (bucket c) (Key obj) (15 * Minute)])
      | Inr u \<Rightarrow>
          if normalizeURL u = target
          then ((Key obj, None), tr @ [PresignGetObject (bucket c) (Key obj) (15 * Minute)])
          else find_loop c target objs (tr @ [PresignGetObject (bucket c) (Key obj) (15 * Minute)]))"
  by (simp add: fresh_url_Cons_0 GetPresignedURL_def Let_def split: sum.splits)



lemma find_loop_trace:
  "\<exists>n \<le> length objs. snd (find_loop c target objs tr) = tr @ presign_requests c (take n objs)"
proof (induction objs arbitrary: tr)
  case Nil
  then show ?case by (simp add: presign_requests_def)
next
  case (Cons obj objs)
  let ?tr' = "tr @ [PresignGetObject (bucket c) (Key obj) (15 * Minute)]"
  from Cons.IH [of ?tr'] obtain n where n: "n \<le> length objs"
    "snd (find_loop c target objs ?tr') = ?tr' @ presign_requests c (take n objs)" by blast
  have a: "?tr' @ presign_requests c (take n objs) = tr @ presign_requests c (take (Suc n) (obj # objs))"
    by (simp add: presign_requests_def)
  have b: "?tr' = tr @ presign_requests c (take (Suc 0) (obj # objs))"
    by (simp add: presign_requests_def)
  have "snd (find_loop c target (obj # objs) tr) = ?tr' @ presign_requests c (take n objs)
        \<or> snd (find_loop c target (obj # objs) tr) = ?tr'"
    using n(2) by (simp add: find_loop_Cons del: find_loop.simps split: sum.splits)
  then show ?case
  proof
    assume "snd (find_loop c target (obj # objs) tr) = ?tr' @ presign_requests c (take n objs)"
    with a n(1) show ?thesis by (intro exI [of _ "Suc n"]) simp
  next
    assume "snd (find_loop c target (obj # objs) tr) = ?tr'"
    with b show ?thesis by (intro exI [of _ "Suc 0"]) simp
  qed
qed



lemma demo_list_e:
  "ListObjects_out (client demo_client) ([] @ [ListObjects (bucket demo_client) ''e/'']) = Inr []"
  by (simp add: demo_client_def demo_s3_def demo_listing_def)







section \<open>Upload\<close>

text \<open>
  C5. \<open>UploadFile\<close> sends its put-object request first, with the key
  \<open>objectID + "/" + key\<close>, and at most one presign request after it, for the same key and
  15 minutes. When it succeeds, the put succeeded and the URL it returns is the one
  \<open>GetPresignedURL\<close> produced for that composite key.
\<close>

theorem UploadFile_composite_key:
  "(snd (UploadFile c objectID k body contentType tr) =
      tr @ [PutObject (bucket c) (objectID @ ''/'' @ k) body contentType] \<or>
    snd (UploadFile c objectID k body contentType tr) =
      tr @ [PutObject (bucket c) (objectID @ ''/'' @ k) body contentType,
            PresignGetObject (bucket c) (objectID @ ''/'' @ k) (15 * Minute)]) \<and>
   (snd (fst (UploadFile c objectID k body contentType tr)) = None \<longrightarrow>
      PutObject_err (client c) (tr @ [PutObject (bucket c) (objectID @ ''/'' @ k) body contentType]) = None \<and>
      GetPresignedURL c (objectID @ ''/'' @ k) (15 * Minute)
          (tr @ [PutObject (bucket c) (objectID @ ''/'' @ k) body contentType]) =
        ((fst (fst (UploadFile c objectID k body contentType tr)), None),
         snd (UploadFile c objectID k body contentType tr)))"
  by (auto simp add: UploadFile_def GetPresignedURL_def Let_def split: option.splits sum.splits)

theorem UploadFile_composite_key_witness:
  "snd (fst (UploadFile demo_client ''obj1'' ''f.jpg'' ''bytes'' ''image/jpeg'' [])) = None \<and>
   PutObject_err (client demo_client)
     ([] @ [PutObject (bucket demo_client) (''obj1'' @ ''/'' @ ''f.jpg'') ''bytes'' ''image/jpeg'']) = None \<and>
   GetPresignedURL demo_client (''obj1'' @ ''/'' @ ''f.jpg'') (15 * Minute)
     ([] @ [PutObject (bucket demo_client) (''obj1'' @ ''/'' @ ''f.jpg'') ''bytes'' ''image/jpeg'']) =
     ((''https://h/bkt/obj1/f.jpg?X-Amz-Signature=ff'', None),
      [PutObject ''bkt'' ''obj1/f.jpg'' ''bytes'' ''image/jpeg'',
       PresignGetObject ''bkt'' ''obj1/f.jpg'' (15 * Minute)])"
proof -
  have ok: "snd (fst (UploadFile demo_client ''obj1'' ''f.jpg'' ''bytes'' ''image/jpeg'' [])) = None"
    by (simp add: demo_upload)
  from UploadFile_composite_key [of demo_client "''obj1''" "''f.jpg''" "''bytes''" "''image/jpeg''" "[]",
      THEN conjunct2, THEN mp, OF ok]
  show ?thesis using ok by (simp add: demo_upload)
qed

section \<open>Expiration of presigned URLs\<close>

lemma run_workers_trace:
  "snd (run_workers c gs tr) = tr @ presign_requests c (map snd gs)"
proof (induction gs arbitrary: tr)
  case Nil
  then show ?case by (simp add: presign_requests_def)
next
  case (Cons g gs)
  have w: "snd (worker c g tr) = tr @ [PresignGetObject (bucket c) (Key (snd g)) (15 * Minute)]"
    by (simp add: worker_def GetPresignedURL_def Let_def split: sum.splits)
  obtain r tr1 where wr: "worker c g tr = (r, tr1)" by (cases "worker c g tr")
  obtain rs tr2 where rw: "run_workers c gs tr1 = (rs, tr2)" by (cases "run_workers c gs tr1")
  have "tr2 = tr1 @ presign_requests c (map snd gs)"
    using Cons.IH [of tr1] rw by simp
  moreover have "tr1 = tr @ [PresignGetObject (bucket c) (Key (snd g)) (15 * Minute)]"
    using w wr by simp
  ultimately show ?case
    using wr rw by (simp add: presign_requests_def)
qed

lemma presign_requests_expiration:
  "PresignGetObject b k e \<in> set (presign_requests c objs) \<Longrightarrow> e = 15 * Minute"
  by (auto simp add: presign_requests_def)

lemma GetObjects_trace:
  "\<exists>objs. snd (GetObjects c prefix sched arrival tr) =
     tr @ ListObjects (bucket c) prefix # presign_requests c objs"
proof (cases "ListObjects_out (client c) (tr @ [ListObjects (bucket c) prefix])")
  case (Inl e)
  then have "snd (GetObjects c prefix sched arrival tr) =
     tr @ ListObjects (bucket c) prefix # presign_requests c []"
    by (simp add: GetObjects_def Let_def presign_requests_def)
  then show ?thesis by blast
next
  case (Inr contents)
  show ?thesis
  proof (cases "length contents = 0")
    case True
    with Inr have "snd (GetObjects c prefix sched arrival tr) =
       tr @ ListObjects (bucket c) prefix # presign_requests c []"
      by (simp add: GetObjects_def Let_def presign_requests_def)
    then show ?thesis by blast
  next
    case False
    let ?gs = "map (\<lambda>p. zip [0 ..< length contents] contents ! p) sched"
    have "snd (GetObjects c prefix sched arrival tr) =
            snd (run_workers c ?gs (tr @ [ListObjects (bucket c) prefix]))"
      using Inr False
      by (simp add: GetObjects_def Let_def split: prod.splits option.splits)
    then have "snd (GetObjects c prefix sched arrival tr) =
       tr @ ListObjects (bucket c) prefix # presign_requests c (map snd ?gs)"
      by (simp add: run_workers_trace)
    then show ?thesis by blast
  qed
qed

text \<open>
  C9, amended. Every presign request sent by \<open>UploadFile\<close>, \<open>FindKeyByPresignedURL\<close> and
  \<open>GetObjects\<close> asks for an expiration of exactly 15 minutes. The public \<open>GetPresignedURL\<close>
  sends the expiration it is given: there the expiration is chosen by the caller, per call.
\<close>

theorem presign_expiration_fixed_in_callers:
  "(\<forall>b k' e. PresignGetObject b k' e \<in> set (drop (length tr) (snd (UploadFile c objectID k body contentType tr))) \<longrightarrow>
       e = 15 * Minute) \<and>
   (\<forall>b k' e. PresignGetObject b k' e \<in> set (drop (length tr) (snd (FindKeyByPresignedURL c target prefix tr))) \<longrightarrow>
       e = 15 * Minute) \<and>
   (\<forall>b k' e. PresignGetObject b k' e \<in> set (drop (length tr) (snd (GetObjects c prefix sched arrival tr))) \<longrightarrow>
       e = 15 * Minute) \<and>
   snd (GetPresignedURL c k expiration tr) = tr @ [PresignGetObject (bucket c) k expiration]"
proof (intro conjI allI impI)
  fix b k' e
  assume "PresignGetObject b k' e \<in> set (drop (length tr) (snd (UploadFile c objectID k body contentType tr)))"
  then show "e = 15 * Minute"
    by (auto simp add: UploadFile_def GetPresignedURL_def Let_def split: option.splits sum.splits)
next
  fix b k' e
  assume a: "PresignGetObject b k' e \<in> set (drop (length tr) (snd (FindKeyByPresignedURL c target prefix tr)))"
  show "e = 15 * Minute"
  proof (cases "ListObjects_out (client c) (tr @ [ListObjects (bucket c) prefix])")
    case (Inl x)
    with a show ?thesis by (simp add: FindKeyByPresignedURL_def Let_def)
  next
    case (Inr contents)
    obtain n where "snd (find_loop c (normalizeURL target) contents (tr @ [ListObjects (bucket c) prefix])) =
        (tr @ [ListObjects (bucket c) prefix]) @ presign_requests c (take n contents)"
      using find_loop_trace by blast
    with a Inr have "PresignGetObject b k' e \<in> set (presign_requests c (take n contents))"
      by (simp add: FindKeyByPresignedURL_def Let_def)
    then show ?thesis by (rule presign_requests_expiration)
  qed
next
  fix b k' e
  assume a: "PresignGetObject b k' e \<in> set (drop (length tr) (snd (GetObjects c prefix sched arrival tr)))"
  obtain objs where "snd (GetObjects c prefix sched arrival tr) =
     tr @ ListObjects (bucket c) prefix # presign_requests c objs"
    using GetObjects_trace by blast
  with a have "PresignGetObject b k' e \<in> set (presign_requests c objs)" by simp
  then show "e = 15 * Minute" by (rule presign_requests_expiration)
next
  show "snd (GetPresignedURL c k expiration tr) = tr @ [PresignGetObject (bucket c) k expiration]"
    by (rule GetPresignedURL_trace)
qed

theorem GetPresignedURL_expiration_counterexample:
  "snd (GetPresignedURL demo_client ''p/a'' (60 * Minute) []) =
     [PresignGetObject ''bkt'' ''p/a'' (60 * Minute)] \<and>
   fst (GetPresignedURL demo_client ''p/a'' (60 * Minute) []) =
     (''https://h/bkt/p/a?X-Amz-Signature=f'', None) \<and>
   60 * Minute \<noteq> 15 * Minute"
  by (simp add: GetPresignedURL_def demo_client_def demo_s3_def demo_presign_def Minute_def)

theorem presign_expiration_fixed_in_callers_witness:
  "PresignGetObject ''bkt'' ''obj1/f.jpg'' 900000000000
     \<in> set (drop (length []) (snd (UploadFile demo_client ''obj1'' ''f.jpg'' ''bytes'' ''image/jpeg'' []))) \<and>
   PresignGetObject ''bkt'' ''p/bad'' 900000000000
     \<in> set (drop (length [])
               (snd (FindKeyByPresignedURL demo_client ''https://h/bkt/p/c?old#x'' ''p/'' []))) \<and>
   PresignGetObject ''bkt'' ''p/c'' 900000000000
     \<in> set (drop (length []) (snd (GetObjects demo_client ''p/'' [2, 1, 0] [1, 2, 0] []))) \<and>
   (900000000000 :: Duration) = 15 * Minute"
proof -
  note th = presign_expiration_fixed_in_callers [of "[]" demo_client "''obj1''" "''f.jpg''"
      "''bytes''" "''image/jpeg''" "''https://h/bkt/p/c?old#x''" "''p/''" "[2, 1, 0]" "[1, 2, 0]"]
  have m1: "PresignGetObject ''bkt'' ''obj1/f.jpg'' 900000000000
     \<in> set (drop (length []) (snd (UploadFile demo_client ''obj1'' ''f.jpg'' ''bytes'' ''image/jpeg'' [])))"
    by (simp add: demo_upload Minute_def)
  have m2: "PresignGetObject ''bkt'' ''p/bad'' 900000000000
     \<in> set (drop (length [])
               (snd (FindKeyByPresignedURL demo_client ''https://h/bkt/p/c?old#x'' ''p/'' [])))"
    by (simp add: demo_find_trace Minute_def)
  have m3: "PresignGetObject ''bkt'' ''p/c'' 900000000000
     \<in> set (drop (length []) (snd (GetObjects demo_client ''p/'' [2, 1, 0] [1, 2, 0] [])))"
    unfolding demo_trace_p1 by (simp add: Minute_def)
  have e1: "(900000000000 :: Duration) = 15 * Minute"
    using th [THEN conjunct1, THEN spec, THEN spec, THEN spec, THEN mp, OF m1] .
  have e2: "(900000000000 :: Duration) = 15 * Minute"
    using th [THEN conjunct2, THEN conjunct1, THEN spec, THEN spec, THEN spec, THEN mp, OF m2] .
  have e3: "(900000000000 :: Duration) = 15 * Minute"
    using th [THEN conjunct2, THEN conjunct2, THEN conjunct1, THEN spec, THEN spec, THEN spec,
        THEN mp, OF m3] .
  show ?thesis using m1 m2 m3 e1 e2 e3 by blast
qed

section \<open>Batch listing\<close>

text \<open>
  C8. When the listing succeeds and holds no object, \<open>GetObjects\<close> returns an empty list that
  is not nil and no error, and the only request it has sent is the listing request: no presign
  call is made, whatever the orders.
\<close>

theorem GetObjects_empty_listing:
  "ListObjects_out (client c) (tr @ [ListObjects (bucket c) prefix]) = Inr [] \<Longrightarrow>
   GetObjects c prefix sched arrival tr = (Return (Some [], None), tr @ [ListObjects (bucket c) prefix])"
  by (simp add: GetObjects_def Let_def)

theorem GetObjects_empty_listing_witness:
  "ListObjects_out (client demo_client) ([] @ [ListObjects (bucket demo_client) ''e/'']) = Inr [] \<and>
   GetObjects demo_client ''e/'' [] [] [] = (Return (Some [], None), [ListObjects ''bkt'' ''e/''])"
  using GetObjects_empty_listing [OF demo_list_e, of "[]" "[]"] demo_list_e
  by (simp add: demo_client_def)









lemma in_listing_order_set [simp]: "set (in_listing_order rs) = set rs"
  by (simp add: in_listing_order_def)

lemma in_listing_order_length [simp]: "length (in_listing_order rs) = length rs"
  by (simp add: in_listing_order_def)


















end
